theory Spec2Isabelle
  imports Main
begin

section \<open>Exceptions and faults\<close>

text \<open>
  Every \<^verbatim>\<open>throw\<close> of \<^verbatim>\<open>CuSparseSolver.cpp\<close> is a value of \<open>exn\<close>, carrying the
  message the source builds. \<open>eigen_assert_failed\<close> is a failed index-range assertion
  inside Eigen (\<^verbatim>\<open>block\<close>, \<^verbatim>\<open>segment\<close>), and \<open>callee_exception\<close> an exception thrown
  by a callee whose source is not part of the two files, tagged with the callee's name.
\<close>

datatype exn =
    runtime_error string
  | invalid_argument string
  | std_exception
  | eigen_assert_failed
  | callee_exception string

section \<open>\<^verbatim>\<open>std::to_string\<close> on integers\<close>

definition digit :: "nat \<Rightarrow> char" where
  "digit d = ''0123456789'' ! d"

fun decimal :: "nat \<Rightarrow> string" where
  "decimal n = (if n < 10 then [digit n] else decimal (n div 10) @ [digit (n mod 10)])"

definition to_string :: "int \<Rightarrow> string" where
  "to_string i = (if i < 0 then CHR ''-'' # decimal (nat (- i)) else decimal (nat i))"

section \<open>\<^verbatim>\<open>std::map<Key, size_t>\<close>\<close>

text \<open>
  A \<^verbatim>\<open>std::map\<close> is modelled by its contents in iteration order: an association list
  with ascending keys. \<open>map_assign k v m\<close> is the statement \<^verbatim>\<open>m[k] = v\<close>;
  \<open>map_index k m\<close> is the expression \<^verbatim>\<open>m[k]\<close> read as a value, which inserts a
  value-initialised entry (\<open>0\<close>) when the key is absent and so returns the map as well.
\<close>

fun map_assign :: "'k::linorder \<Rightarrow> 'v \<Rightarrow> ('k \<times> 'v) list \<Rightarrow> ('k \<times> 'v) list" where
  "map_assign k v [] = [(k, v)]"
| "map_assign k v ((k', v') # m) =
     (if k < k' then (k, v) # (k', v') # m
      else if k = k' then (k, v) # m
      else (k', v') # map_assign k v m)"

definition map_index :: "'k::linorder \<Rightarrow> ('k \<times> 'v::zero) list \<Rightarrow> 'v \<times> ('k \<times> 'v) list" where
  "map_index k m = (case map_of m k of Some v \<Rightarrow> (v, m) | None \<Rightarrow> (0, map_assign k 0 m))"

text \<open>\<^verbatim>\<open>size_t\<close> is 64 bits wide; \<^verbatim>\<open>+=\<close> on it wraps.\<close>

definition size_t_add :: "nat \<Rightarrow> nat \<Rightarrow> nat" where
  "size_t_add a b = (a + b) mod 2 ^ 64"

section \<open>The factor graph as \<^verbatim>\<open>solve\<close> reads it\<close>

text \<open>
  \<^verbatim>\<open>solve\<close> uses three things of a factor: its key iterators \<^verbatim>\<open>begin()\<close> to
  \<^verbatim>\<open>end()\<close>, the key \<^verbatim>\<open>*it\<close> at each, and \<^verbatim>\<open>getDim(it)\<close>. A factor is therefore the
  list of its (key, dimension) pairs in iterator order, and a graph a list of shared
  pointers to factors, \<open>None\<close> being the null pointer.
\<close>

type_synonym 'k factor = "('k \<times> nat) list"
type_synonym 'k gfg = "'k factor option list"

text \<open>Lines 185-187: the inner loop \<^verbatim>\<open>dims[*it] = factor->getDim(it)\<close>.\<close>

fun scan_factor :: "'k::linorder factor \<Rightarrow> ('k \<times> nat) list \<Rightarrow> ('k \<times> nat) list" where
  "scan_factor [] dims = dims"
| "scan_factor ((key, d) # its) dims = scan_factor its (map_assign key d dims)"

text \<open>Lines 181-188: the loop over the graph; a null factor is skipped.\<close>

fun scan_graph :: "'k::linorder gfg \<Rightarrow> ('k \<times> nat) list \<Rightarrow> ('k \<times> nat) list" where
  "scan_graph [] dims = dims"
| "scan_graph (None # fs) dims = scan_graph fs dims"
| "scan_graph (Some f # fs) dims = scan_graph fs (scan_factor f dims)"

text \<open>
  Lines 195-199: the loop over the ordering. It writes \<^verbatim>\<open>columnIndices[key]\<close> and reads
  \<^verbatim>\<open>dims[key]\<close>, which adds \<open>key\<close> to \<open>dims\<close> when no factor mentioned it.
\<close>

fun column_loop ::
  "'k::linorder list \<Rightarrow> nat \<Rightarrow> ('k \<times> nat) list \<Rightarrow> ('k \<times> nat) list
     \<Rightarrow> ('k \<times> nat) list \<times> ('k \<times> nat) list" where
  "column_loop [] currentColIndex dims columnIndices = (dims, columnIndices)"
| "column_loop (key # keys) currentColIndex dims columnIndices =
     (let columnIndices' = map_assign key currentColIndex columnIndices;
          (d, dims') = map_index key dims
      in column_loop keys (size_t_add currentColIndex d) dims' columnIndices')"

text \<open>
  \<^verbatim>\<open>x.segment(start, n)\<close>: Eigen asserts that the segment lies inside the vector.
\<close>

definition segment :: "'a list \<Rightarrow> nat \<Rightarrow> nat \<Rightarrow> exn + 'a list" where
  "segment x start n =
     (if start + n \<le> length x then Inr (take n (drop start x)) else Inl eigen_assert_failed)"

text \<open>
  \<^verbatim>\<open>VectorValues\<close> is a map from keys to vectors, again held as an ascending association
  list. Its \<^verbatim>\<open>insert(key, vector)\<close> (in \<^verbatim>\<open>VectorValues.cpp\<close>, not among the sources) throws
  when the key is already present.
\<close>

definition vv_insert ::
  "'k::linorder \<Rightarrow> 'a list \<Rightarrow> ('k \<times> 'a list) list \<Rightarrow> exn + ('k \<times> 'a list) list" where
  "vv_insert key v vv =
     (case map_of vv key of
        Some _ \<Rightarrow> Inl (callee_exception ''VectorValues::insert'')
      | None \<Rightarrow> Inr (map_assign key v vv))"

text \<open>Lines 202-204: the loop over \<open>dims\<close> that fills the result.\<close>

fun fill_values ::
  "('k::linorder \<times> nat) list \<Rightarrow> ('k \<times> nat) list \<Rightarrow> 'a list \<Rightarrow> ('k \<times> 'a list) list
     \<Rightarrow> exn + ('k \<times> 'a list) list" where
  "fill_values [] columnIndices x vv = Inr vv"
| "fill_values ((key, d) # keyDims) columnIndices x vv =
     (let (start, columnIndices') = map_index key columnIndices in
      case segment x start d of
        Inl e \<Rightarrow> Inl e
      | Inr seg \<Rightarrow>
          (case vv_insert key seg vv of
             Inl e \<Rightarrow> Inl e
           | Inr vv' \<Rightarrow> fill_values keyDims columnIndices' x vv'))"

text \<open>Lines 180-206 as a whole: from the downloaded solution \<open>x\<close> to the returned value.\<close>

definition remap :: "'k::linorder list \<Rightarrow> 'k gfg \<Rightarrow> 'a list \<Rightarrow> exn + ('k \<times> 'a list) list" where
  "remap order gfg x =
     (let dims = scan_graph gfg [];
          (dims', columnIndices) = column_loop order 0 dims []
      in fill_values dims' columnIndices x [])"

text \<open>
  Three notions for stating what the loops compute. \<open>map_read m k\<close> is the value the
  expression \<^verbatim>\<open>m[k]\<close> yields. \<open>reports gfg\<close> lists every (key, dimension) pair the
  factors report, in the order the scan of lines 181-188 meets them: graph order, then
  iterator order, null factors reporting nothing. \<open>columnIndices_of order dims\<close> is the
  map \<^verbatim>\<open>columnIndices\<close> when the loop of lines 196-199 has run.
\<close>

definition map_read :: "('k::linorder \<times> 'v::zero) list \<Rightarrow> 'k \<Rightarrow> 'v" where
  "map_read m k = fst (map_index k m)"

definition reports :: "'k gfg \<Rightarrow> ('k \<times> nat) list" where
  "reports gfg = concat (map (\<lambda>factor. case factor of None \<Rightarrow> [] | Some f \<Rightarrow> f) gfg)"

definition columnIndices_of :: "'k::linorder list \<Rightarrow> ('k \<times> nat) list \<Rightarrow> ('k \<times> nat) list" where
  "columnIndices_of order dims = snd (column_loop order 0 dims [])"

section \<open>The Eigen operations of the normal-equations reduction\<close>

text \<open>
  A matrix is its dimensions and its coefficient function, over any semiring of scalars
  (the source's \<^verbatim>\<open>double\<close> is not modelled: sums and products are exact). The
  operations are Eigen's, which the source calls in lines 116-126: \<^verbatim>\<open>block\<close>,
  \<^verbatim>\<open>col\<close> (here \<open>column\<close>), \<^verbatim>\<open>transpose\<close>, the product \<^verbatim>\<open>*\<close>, the constructor of an empty sparse
  matrix, and \<^verbatim>\<open>selfadjointView<Eigen::Upper>().rankUpdate(u)\<close>, which adds \<open>u u\<^sup>T\<close> to the
  upper triangle and leaves the rest alone.
\<close>

record 'a matrix =
  rows :: nat
  cols :: nat
  coeff :: "nat \<Rightarrow> nat \<Rightarrow> 'a"

definition block :: "'a matrix \<Rightarrow> nat \<Rightarrow> nat \<Rightarrow> nat \<Rightarrow> nat \<Rightarrow> 'a matrix" where
  "block M startRow startCol blockRows blockCols =
     \<lparr>rows = blockRows, cols = blockCols,
      coeff = (\<lambda>i j. coeff M (startRow + i) (startCol + j))\<rparr>"

definition column :: "'a matrix \<Rightarrow> nat \<Rightarrow> 'a matrix" where
  "column M j = \<lparr>rows = rows M, cols = 1, coeff = (\<lambda>i _. coeff M i j)\<rparr>"

definition transpose_matrix :: "'a matrix \<Rightarrow> 'a matrix" where
  "transpose_matrix M = \<lparr>rows = cols M, cols = rows M, coeff = (\<lambda>i j. coeff M j i)\<rparr>"

definition product :: "'a::semiring_0 matrix \<Rightarrow> 'a matrix \<Rightarrow> 'a matrix" where
  "product M N =
     \<lparr>rows = rows M, cols = cols N,
      coeff = (\<lambda>i j. sum_list (map (\<lambda>k. coeff M i k * coeff N k j) [0..<cols M]))\<rparr>"

definition empty_sparse :: "nat \<Rightarrow> nat \<Rightarrow> 'a::semiring_0 matrix" where
  "empty_sparse r c = \<lparr>rows = r, cols = c, coeff = (\<lambda>_ _. 0)\<rparr>"

definition rankUpdate_upper :: "'a::semiring_0 matrix \<Rightarrow> 'a matrix \<Rightarrow> 'a matrix" where
  "rankUpdate_upper S u =
     S\<lparr>coeff := (\<lambda>i j.
        if i \<le> j
        then coeff S i j + sum_list (map (\<lambda>k. coeff u i k * coeff u j k) [0..<cols u])
        else coeff S i j)\<rparr>"

text \<open>
  Lines 118-126 of \<^verbatim>\<open>solve\<close>: \<open>A\<close>, the reduced right-hand side \<open>b\<close> and \<open>AtA\<close>.
  \<^verbatim>\<open>cols - 1\<close> is negative for a matrix without columns, and \<^verbatim>\<open>block\<close> asserts.
\<close>

definition normal_equations ::
  "'a::semiring_0 matrix \<Rightarrow> exn + 'a matrix \<times> 'a matrix \<times> 'a matrix" where
  "normal_equations Ab =
     (if cols Ab = 0 then Inl eigen_assert_failed
      else
        let A = block Ab 0 0 (rows Ab) (cols Ab - 1);
            At = transpose_matrix A;
            b = product At (column Ab (cols Ab - 1));
            AtA = rankUpdate_upper (empty_sparse (cols A) (cols A)) At
        in Inr (A, b, AtA))"

section \<open>Device memory\<close>

text \<open>
  \<^verbatim>\<open>solve\<close> has five pointer variables; \<^verbatim>\<open>EigenSparseToCuSparseTranspose\<close> gets the
  addresses of three of them. A pointer value is null, the address of one of these host
  variables, or a device address. The machine state holds the device addresses that are
  allocated (\<open>heap\<close>, the latest first), what each pointer variable holds, and the
  arguments of the \<^verbatim>\<open>cudaFree\<close> calls the runtime refused. Byte counts and buffer
  contents are not tracked.
\<close>

datatype hostvar = AtA_row | AtA_col | AtA_val | x_gpu | b_gpu

datatype ptr = NULL | HostAddr hostvar | DevAddr nat

record machine =
  heap :: "nat list"
  vars :: "hostvar \<Rightarrow> ptr"
  refused_frees :: "ptr list"

definition cudaSuccess :: int where
  "cudaSuccess = 0"

definition cudaErrorInvalidValue :: int where
  "cudaErrorInvalidValue = 1"

definition CUSOLVER_STATUS_SUCCESS :: int where
  "CUSOLVER_STATUS_SUCCESS = 0"

definition CUSPARSE_STATUS_SUCCESS :: int where
  "CUSPARSE_STATUS_SUCCESS = 0"

definition fresh_addr :: "nat list \<Rightarrow> nat" where
  "fresh_addr h = Suc (foldr max h 0)"

text \<open>
  \<^verbatim>\<open>cudaMalloc(devPtr, size)\<close> with the status the device gives this call: on success
  a fresh device address is allocated and stored in \<^verbatim>\<open>*devPtr\<close>.
\<close>

definition cudaMalloc :: "int \<Rightarrow> hostvar \<Rightarrow> machine \<Rightarrow> int \<times> machine" where
  "cudaMalloc status devPtr s =
     (if status = cudaSuccess
      then (let a = fresh_addr (heap s)
            in (cudaSuccess, s\<lparr>heap := a # heap s, vars := (vars s)(devPtr := DevAddr a)\<rparr>))
      else (status, s))"

text \<open>
  \<^verbatim>\<open>cudaFree(devPtr)\<close>: a null pointer is accepted and nothing happens; an allocated
  device address is released; any other pointer is refused with an error status and
  nothing is released.
\<close>

definition cudaFree :: "ptr \<Rightarrow> machine \<Rightarrow> int \<times> machine" where
  "cudaFree devPtr s =
     (case devPtr of
        NULL \<Rightarrow> (cudaSuccess, s)
      | DevAddr a \<Rightarrow>
          if a \<in> set (heap s) then (cudaSuccess, s\<lparr>heap := remove1 a (heap s)\<rparr>)
          else (cudaErrorInvalidValue, s\<lparr>refused_frees := refused_frees s @ [devPtr]\<rparr>)
      | HostAddr v \<Rightarrow>
          (cudaErrorInvalidValue, s\<lparr>refused_frees := refused_frees s @ [devPtr]\<rparr>))"

text \<open>A pointer variable declared with the initialiser \<^verbatim>\<open>NULL\<close>.\<close>

definition init_ptr :: "hostvar \<Rightarrow> machine \<Rightarrow> unit \<times> machine" where
  "init_ptr v s = ((), s\<lparr>vars := (vars s)(v := NULL)\<rparr>)"

section \<open>Computations that change the machine and may throw\<close>

type_synonym 'r comp = "machine \<Rightarrow> (exn + 'r) \<times> machine"

definition ret :: "'r \<Rightarrow> 'r comp" where
  "ret r = (\<lambda>s. (Inr r, s))"

definition throw :: "exn \<Rightarrow> 'r comp" where
  "throw e = (\<lambda>s. (Inl e, s))"

definition call :: "(machine \<Rightarrow> 'r \<times> machine) \<Rightarrow> 'r comp" where
  "call f = (\<lambda>s. case f s of (r, s') \<Rightarrow> (Inr r, s'))"

definition andThen :: "'r comp \<Rightarrow> ('r \<Rightarrow> 'q comp) \<Rightarrow> 'q comp" where
  "andThen m f = (\<lambda>s. case m s of (Inl e, s') \<Rightarrow> (Inl e, s') | (Inr r, s') \<Rightarrow> f r s')"

section \<open>The checks (lines 53-75)\<close>

definition checkCUDAError :: "int \<Rightarrow> string \<Rightarrow> unit comp" where
  "checkCUDAError code location =
     (if code \<noteq> cudaSuccess
      then throw (runtime_error (''cudaMalloc error '' @ to_string code @ '' at '' @ location))
      else ret ())"

definition checkCuSolverError :: "int \<Rightarrow> string \<Rightarrow> unit comp" where
  "checkCuSolverError code location =
     (if code \<noteq> CUSOLVER_STATUS_SUCCESS
      then throw (runtime_error (''cuSolver error '' @ to_string code @ '' at '' @ location))
      else ret ())"

definition checkCuSparseError :: "int \<Rightarrow> string \<Rightarrow> unit comp" where
  "checkCuSparseError code location =
     (if code \<noteq> CUSPARSE_STATUS_SUCCESS
      then throw (runtime_error (''cuSparse error '' @ to_string code @ '' at '' @ location))
      else ret ())"

text \<open>
  The macros \<^verbatim>\<open>CHECK_CUDA_ERROR\<close>, \<^verbatim>\<open>CHECK_CUSOLVER_ERROR\<close> and
  \<^verbatim>\<open>CHECK_CUSPARSE_ERROR\<close> pass \<^verbatim>\<open>____LOCATION\<close>, the string literal
  \<^verbatim>\<open>__FILE__ " : " line\<close> of the place where they are used. The file name and the line a
  compiler gives a use that spans several lines are fixed at build time, so the model
  takes the literal of each use as a parameter \<open>LOCATION\<close>; a use is named by the line
  it starts on.
\<close>

datatype site =
    Line98 | Line102 | Line105
  | Line131 | Line134 | Line135
  | Line144 | Line145 | Line147 | Line158 | Line164

section \<open>What the device answers\<close>

text \<open>
  The CUDA runtime, cuSPARSE and cuSOLVER are outside the program. A \<open>device\<close> gives the
  status each of their calls returns during one \<^verbatim>\<open>solve\<close>, in the order of the source,
  and what \<^verbatim>\<open>cusolverSpDcsrlsvchol\<close> writes: the singularity index and the solution
  vector on the device. Theorems quantify over every \<open>device\<close>.
\<close>

record 'a device =
  cusolverSpCreate_status :: int
  cusparseCreateMatDescr_status :: int
  cusparseSetMatType_status :: int
  cudaMalloc_row_status :: int
  cudaMalloc_col_status :: int
  cudaMalloc_val_status :: int
  cudaMemcpy_val_status :: int
  cudaMemcpy_row_status :: int
  cudaMemcpy_col_status :: int
  cudaMalloc_x_status :: int
  cudaMalloc_b_status :: int
  cudaMemcpy_b_status :: int
  csrlsvchol_status :: int
  csrlsvchol_singularity :: int
  csrlsvchol_x :: "nat \<Rightarrow> 'a"
  cudaMemcpy_x_status :: int

section \<open>\<^verbatim>\<open>EigenSparseToCuSparseTranspose\<close> (lines 77-109)\<close>

text \<open>
  \<open>row\<close>, \<open>col\<close> and \<open>val\<close> are the addresses of the caller's pointer variables
  (\<^verbatim>\<open>int **row\<close>). The two cleanup branches pass these addresses themselves to
  \<^verbatim>\<open>cudaFree\<close>: \<^verbatim>\<open>cudaFree(row)\<close>, not \<^verbatim>\<open>cudaFree(*row)\<close>.
\<close>

definition EigenSparseToCuSparseTranspose ::
  "(site \<Rightarrow> string) \<Rightarrow> 'a device \<Rightarrow> hostvar \<Rightarrow> hostvar \<Rightarrow> hostvar \<Rightarrow> unit comp" where
  "EigenSparseToCuSparseTranspose LOCATION dev row col val =
     andThen (call (cudaMalloc (cudaMalloc_row_status dev) row)) (\<lambda>err.
     if err \<noteq> cudaSuccess
     then throw (runtime_error
            (''cudaMalloc error: out of memory? trying to allocate '' @ to_string err))
     else
     andThen (call (cudaMalloc (cudaMalloc_col_status dev) col)) (\<lambda>err_col.
     if err_col \<noteq> cudaSuccess
     then andThen (call (cudaFree (HostAddr row))) (\<lambda>_.
          throw (runtime_error ''cudaMalloc error: out of memory?''))
     else
     andThen (call (cudaMalloc (cudaMalloc_val_status dev) val)) (\<lambda>err_val.
     if err_val \<noteq> cudaSuccess
     then andThen (call (cudaFree (HostAddr row))) (\<lambda>_.
          andThen (call (cudaFree (HostAddr col))) (\<lambda>_.
          throw (runtime_error ''cudaMalloc error: out of memory?'')))
     else
     andThen (checkCUDAError (cudaMemcpy_val_status dev) (LOCATION Line98)) (\<lambda>_.
     andThen (checkCUDAError (cudaMemcpy_row_status dev) (LOCATION Line102)) (\<lambda>_.
     checkCUDAError (cudaMemcpy_col_status dev) (LOCATION Line105))))))"

section \<open>The solver (lines 33-45 and 111-210)\<close>

datatype CuSparseSolverType = QR | CHOLESKY

text \<open>The member \<^verbatim>\<open>ordering\<close> is the field \<open>solverOrdering\<close>.\<close>

record 'k CuSparseSolver =
  solverType :: CuSparseSolverType
  solverOrdering :: "'k list"

definition new_CuSparseSolver :: "CuSparseSolverType \<Rightarrow> 'k list \<Rightarrow> 'k CuSparseSolver" where
  "new_CuSparseSolver type order = \<lparr>solverType = type, solverOrdering = order\<rparr>"

definition isIterative :: "'k CuSparseSolver \<Rightarrow> bool" where
  "isIterative this = False"

definition isSequential :: "'k CuSparseSolver \<Rightarrow> bool" where
  "isSequential this = False"

text \<open>
  \<^verbatim>\<open>solve\<close> as compiled with \<^verbatim>\<open>GTSAM_USE_CUSPARSE\<close>. \<open>sparseJacobianEigen\<close> is
  \<^verbatim>\<open>SparseEigenSolver::sparseJacobianEigen\<close>, whose source is not among the files: a
  parameter. The two handles (\<^verbatim>\<open>solverHandle\<close>, \<^verbatim>\<open>descrA\<close>) are never destroyed by the
  source and are not device buffers; the model does not track them, nor the two lines
  printed to \<^verbatim>\<open>std::cout\<close>. The solver object is only read.
\<close>

definition solve ::
  "(site \<Rightarrow> string) \<Rightarrow> ('k gfg \<Rightarrow> 'k list \<Rightarrow> 'a matrix) \<Rightarrow> 'a device
     \<Rightarrow> 'k::linorder CuSparseSolver \<Rightarrow> 'k gfg \<Rightarrow> ('k \<times> 'a::semiring_0 list) list comp" where
  "solve LOCATION sparseJacobianEigen dev this gfg =
     (if solverType this = QR
      then throw (invalid_argument ''This solver does not support QR.'')
      else if solverType this = CHOLESKY then
        (case normal_equations (sparseJacobianEigen gfg (solverOrdering this)) of
           Inl e \<Rightarrow> throw e
         | Inr (A, b, AtA) \<Rightarrow>
        andThen (checkCuSolverError (cusolverSpCreate_status dev) (LOCATION Line131)) (\<lambda>_.
        andThen (checkCuSparseError (cusparseCreateMatDescr_status dev) (LOCATION Line134)) (\<lambda>_.
        andThen (checkCuSparseError (cusparseSetMatType_status dev) (LOCATION Line135)) (\<lambda>_.
        andThen (call (init_ptr AtA_row)) (\<lambda>_.
        andThen (call (init_ptr AtA_col)) (\<lambda>_.
        andThen (call (init_ptr AtA_val)) (\<lambda>_.
        andThen (EigenSparseToCuSparseTranspose LOCATION dev AtA_row AtA_col AtA_val) (\<lambda>_.
        andThen (call (init_ptr x_gpu)) (\<lambda>_.
        andThen (call (init_ptr b_gpu)) (\<lambda>_.
        andThen (call (cudaMalloc (cudaMalloc_x_status dev) x_gpu)) (\<lambda>code_x.
        andThen (checkCUDAError code_x (LOCATION Line144)) (\<lambda>_.
        andThen (call (cudaMalloc (cudaMalloc_b_status dev) b_gpu)) (\<lambda>code_b.
        andThen (checkCUDAError code_b (LOCATION Line145)) (\<lambda>_.
        andThen (checkCUDAError (cudaMemcpy_b_status dev) (LOCATION Line147)) (\<lambda>_.
        andThen (checkCuSolverError (csrlsvchol_status dev) (LOCATION Line158)) (\<lambda>_.
        let singularity = csrlsvchol_singularity dev in
        andThen (checkCUDAError (cudaMemcpy_x_status dev) (LOCATION Line164)) (\<lambda>_.
        let x = map (csrlsvchol_x dev) [0..<cols A] in
        andThen (call (\<lambda>s. cudaFree (vars s AtA_val) s)) (\<lambda>_.
        andThen (call (\<lambda>s. cudaFree (vars s AtA_row) s)) (\<lambda>_.
        andThen (call (\<lambda>s. cudaFree (vars s AtA_col) s)) (\<lambda>_.
        andThen (call (\<lambda>s. cudaFree (vars s b_gpu) s)) (\<lambda>_.
        andThen (call (\<lambda>s. cudaFree (vars s x_gpu) s)) (\<lambda>_.
        if singularity \<noteq> - 1
        then throw (runtime_error
               (''ILS in CUDA Solver, singularity: '' @ to_string singularity))
        else
          (case remap (solverOrdering this) gfg x of
             Inl e \<Rightarrow> throw e
           | Inr vv \<Rightarrow> ret vv)))))))))))))))))))))))
      else throw std_exception)"

section \<open>Runs of the device\<close>

text \<open>
  \<open>buffers_acquired dev\<close>: every call of \<^verbatim>\<open>solve\<close> up to line 145 returns its success
  status, so the three arrays of \<open>AtA\<close> and the two vectors are on the device.
  \<open>every_call_succeeds dev\<close>: so do the upload of \<open>b\<close>, the factorisation and the download
  of \<open>x\<close>.
\<close>

definition buffers_acquired :: "'a device \<Rightarrow> bool" where
  "buffers_acquired dev \<longleftrightarrow>
     cusolverSpCreate_status dev = CUSOLVER_STATUS_SUCCESS
   \<and> cusparseCreateMatDescr_status dev = CUSPARSE_STATUS_SUCCESS
   \<and> cusparseSetMatType_status dev = CUSPARSE_STATUS_SUCCESS
   \<and> cudaMalloc_row_status dev = cudaSuccess
   \<and> cudaMalloc_col_status dev = cudaSuccess
   \<and> cudaMalloc_val_status dev = cudaSuccess
   \<and> cudaMemcpy_val_status dev = cudaSuccess
   \<and> cudaMemcpy_row_status dev = cudaSuccess
   \<and> cudaMemcpy_col_status dev = cudaSuccess
   \<and> cudaMalloc_x_status dev = cudaSuccess
   \<and> cudaMalloc_b_status dev = cudaSuccess"

definition every_call_succeeds :: "'a device \<Rightarrow> bool" where
  "every_call_succeeds dev \<longleftrightarrow>
     buffers_acquired dev
   \<and> cudaMemcpy_b_status dev = cudaSuccess
   \<and> csrlsvchol_status dev = CUSOLVER_STATUS_SUCCESS
   \<and> cudaMemcpy_x_status dev = cudaSuccess"

section \<open>Sample inputs\<close>

text \<open>
  Concrete inputs on which the theorems below are instantiated: a device on which every
  call succeeds and the factorisation reports no singularity, a machine with nothing
  allocated, one choice of location literals, an assembler that returns a fixed 2 by 4 system, and
  a graph of two factors over the variables 1 (dimension 2) and 2 (dimension 1).
\<close>

definition quiet_device :: "int device" where
  "quiet_device =
     \<lparr>cusolverSpCreate_status = 0, cusparseCreateMatDescr_status = 0,
      cusparseSetMatType_status = 0, cudaMalloc_row_status = 0, cudaMalloc_col_status = 0,
      cudaMalloc_val_status = 0, cudaMemcpy_val_status = 0, cudaMemcpy_row_status = 0,
      cudaMemcpy_col_status = 0, cudaMalloc_x_status = 0, cudaMalloc_b_status = 0,
      cudaMemcpy_b_status = 0, csrlsvchol_status = 0, csrlsvchol_singularity = - 1,
      csrlsvchol_x = (\<lambda>i. 10 * int i), cudaMemcpy_x_status = 0\<rparr>"

definition idle_machine :: machine where
  "idle_machine = \<lparr>heap = [], vars = (\<lambda>_. NULL), refused_frees = []\<rparr>"

fun here :: "site \<Rightarrow> string" where
  "here Line98 = ''CuSparseSolver.cpp : 98''"
| "here Line102 = ''CuSparseSolver.cpp : 102''"
| "here Line105 = ''CuSparseSolver.cpp : 105''"
| "here Line131 = ''CuSparseSolver.cpp : 131''"
| "here Line134 = ''CuSparseSolver.cpp : 134''"
| "here Line135 = ''CuSparseSolver.cpp : 135''"
| "here Line144 = ''CuSparseSolver.cpp : 144''"
| "here Line145 = ''CuSparseSolver.cpp : 145''"
| "here Line147 = ''CuSparseSolver.cpp : 147''"
| "here Line158 = ''CuSparseSolver.cpp : 158''"
| "here Line164 = ''CuSparseSolver.cpp : 164''"

definition sample_system :: "int matrix" where
  "sample_system = \<lparr>rows = 2, cols = 4, coeff = (\<lambda>i j. int (i + 2 * j))\<rparr>"

definition sample_assembler :: "nat gfg \<Rightarrow> nat list \<Rightarrow> int matrix" where
  "sample_assembler gfg order = sample_system"

definition sample_graph :: "nat gfg" where
  "sample_graph = [Some [(1, 2)], None, Some [(1, 2), (2, 1)]]"

section \<open>Facts about the maps\<close>

lemma map_of_map_assign: "map_of (map_assign k v m) = (map_of m)(k \<mapsto> v)"
  by (induction m) (auto simp: fun_eq_iff)

lemma keys_dom: "fst ` set m = dom (map_of m)"
  by (simp add: dom_map_of_conv_image_fst)

lemma dom_map_of_rev: "dom (map_of (rev m)) = dom (map_of m)"
  by (simp add: dom_map_of_conv_image_fst)

lemma keys_map_assign: "fst ` set (map_assign k v m) = insert k (fst ` set m)"
  by (simp add: keys_dom map_of_map_assign)

lemma sorted_map_assign:
  "sorted_wrt (<) (map fst m) \<Longrightarrow> sorted_wrt (<) (map fst (map_assign k v m))"
proof (induction m)
  case Nil
  then show ?case by simp
next
  case (Cons e m)
  obtain k' v' where e: "e = (k', v')" by (cases e)
  have "\<forall>j\<in>fst ` set (map_assign k v m). k' < j" if "k' < k"
    using Cons.prems that unfolding keys_map_assign e by auto
  with Cons show ?case
    unfolding e by (auto simp: not_less)
qed

lemma map_assign_append:
  "\<forall>j\<in>fst ` set m. j < k \<Longrightarrow> map_assign k v m = m @ [(k, v)]"
  by (induction m) auto

lemma map_read_eq: "map_read m k = (case map_of m k of Some v \<Rightarrow> v | None \<Rightarrow> 0)"
  by (simp add: map_read_def map_index_def split: option.splits)

lemma map_read_map_assign: "map_read (map_assign k v m) j = (if j = k then v else map_read m j)"
  by (simp add: map_read_eq map_of_map_assign)

lemma map_read_after_index: "map_read (snd (map_index k m)) = map_read m"
  by (auto simp: fun_eq_iff map_read_eq map_index_def map_of_map_assign split: option.splits)

lemma keys_after_index: "fst ` set (snd (map_index k m)) = insert k (fst ` set m)"
  by (auto simp: map_index_def keys_dom map_of_map_assign split: option.splits)

lemma sorted_after_index:
  "sorted_wrt (<) (map fst m) \<Longrightarrow> sorted_wrt (<) (map fst (snd (map_index k m)))"
  by (simp add: map_index_def sorted_map_assign split: option.splits)

lemma map_of_scan_factor: "map_of (scan_factor f dims) = map_of dims ++ map_of (rev f)"
  by (induction f arbitrary: dims) (auto simp: map_of_map_assign fun_eq_iff map_add_def split: option.splits)

lemma map_of_scan_graph: "map_of (scan_graph gfg dims) = map_of dims ++ map_of (rev (reports gfg))"
  by (induction gfg dims rule: scan_graph.induct) (auto simp: reports_def map_of_scan_factor)

lemma sorted_scan_factor:
  "sorted_wrt (<) (map fst dims) \<Longrightarrow> sorted_wrt (<) (map fst (scan_factor f dims))"
  by (induction f arbitrary: dims) (auto simp: sorted_map_assign)

lemma sorted_scan_graph:
  "sorted_wrt (<) (map fst dims) \<Longrightarrow> sorted_wrt (<) (map fst (scan_graph gfg dims))"
  by (induction gfg dims rule: scan_graph.induct) (auto simp: sorted_scan_factor)

lemma keys_scan_factor: "fst ` set (scan_factor f dims) = fst ` set dims \<union> fst ` set f"
  by (simp add: keys_dom map_of_scan_factor Un_commute dom_map_of_rev)

lemma keys_scan_graph: "fst ` set (scan_graph gfg dims) = fst ` set dims \<union> fst ` set (reports gfg)"
  by (simp add: keys_dom map_of_scan_graph Un_commute dom_map_of_rev)

lemma column_loop_Cons:
  "column_loop (key # keys) c dims ci =
     column_loop keys (size_t_add c (map_read dims key)) (snd (map_index key dims))
       (map_assign key c ci)"
  by (simp add: map_read_def split: prod.splits)

lemma map_read_dims_after: "map_read (fst (column_loop keys c dims ci)) = map_read dims"
  by (induction keys arbitrary: c dims ci)
     (simp_all add: column_loop_Cons map_read_after_index del: column_loop.simps(2))

lemma keys_dims_after:
  "fst ` set (fst (column_loop keys c dims ci)) = fst ` set dims \<union> set keys"
  by (induction keys arbitrary: c dims ci)
     (simp_all add: column_loop_Cons keys_after_index del: column_loop.simps(2))

lemma sorted_dims_after:
  "sorted_wrt (<) (map fst dims) \<Longrightarrow>
   sorted_wrt (<) (map fst (fst (column_loop keys c dims ci)))"
  by (induction keys arbitrary: c dims ci)
     (simp_all add: column_loop_Cons sorted_after_index del: column_loop.simps(2))

lemma keys_columnIndices:
  "fst ` set (snd (column_loop keys c dims ci)) = fst ` set ci \<union> set keys"
  by (induction keys arbitrary: c dims ci)
     (simp_all add: column_loop_Cons keys_map_assign del: column_loop.simps(2))

lemma columnIndices_other:
  "k \<notin> set keys \<Longrightarrow> map_of (snd (column_loop keys c dims ci)) k = map_of ci k"
  by (induction keys arbitrary: c dims ci)
     (simp_all add: column_loop_Cons map_of_map_assign del: column_loop.simps(2))

lemma columnIndices_prefix_sum:
  "distinct keys \<Longrightarrow> c + sum_list (map (map_read dims) keys) < 2 ^ 64 \<Longrightarrow>
   i < length keys \<Longrightarrow>
   map_of (snd (column_loop keys c dims ci)) (keys ! i) =
     Some (c + sum_list (map (map_read dims) (take i keys)))"
proof (induction keys arbitrary: c dims ci i)
  case Nil
  then show ?case by simp
next
  case (Cons key keys)
  let ?d = "map_read dims key"
  have nowrap: "size_t_add c ?d = c + ?d"
    using Cons.prems(2) by (simp add: size_t_add_def)
  show ?case
  proof (cases i)
    case 0
    then show ?thesis
      using Cons.prems(1)
      by (simp add: column_loop_Cons columnIndices_other map_of_map_assign
          del: column_loop.simps(2))
  next
    case (Suc j)
    have "map_of (snd (column_loop keys (c + ?d) (snd (map_index key dims))
             (map_assign key c ci))) (keys ! j) =
          Some (c + ?d + sum_list (map (map_read (snd (map_index key dims))) (take j keys)))"
      using Cons.prems Suc
      by (intro Cons.IH) (simp_all add: map_read_after_index)
    then show ?thesis
      using Suc
      by (simp add: column_loop_Cons nowrap map_read_after_index del: column_loop.simps(2))
  qed
qed


section \<open>The variable dimension map\<close>

text \<open>
  Claim C8. The dimension map is built by scanning the factors in graph order and, in each,
  its keys in iterator order, recording for every key the dimension the factor reports.
  When several reports name the same key, the recorded dimension is the one of the last
  report in scan order, whether or not the reports agree; a key no factor reports has no
  entry. The scan is a total function into maps: it has no error result.
\<close>

theorem dims_last_writer_wins:
  "map_of (scan_graph gfg []) k = map_of (rev (reports gfg)) k
   \<and> (\<forall>before d after.
        reports gfg = before @ (k, d) # after \<and> k \<notin> fst ` set after
        \<longrightarrow> map_of (scan_graph gfg []) k = Some d)
   \<and> (k \<notin> fst ` set (reports gfg) \<longrightarrow> map_of (scan_graph gfg []) k = None)"
proof (intro conjI allI impI)
  show eq: "map_of (scan_graph gfg []) k = map_of (rev (reports gfg)) k"
    by (simp add: map_of_scan_graph)
  show "map_of (scan_graph gfg []) k = Some d"
    if "reports gfg = before @ (k, d) # after \<and> k \<notin> fst ` set after" for before d after
  proof -
    have "map_of (rev after) k = None"
      using that by (simp add: map_of_eq_None_iff)
    then show ?thesis
      using that by (simp add: eq map_add_def)
  qed
  show "map_of (scan_graph gfg []) k = None" if "k \<notin> fst ` set (reports gfg)"
    using that by (simp add: eq map_of_eq_None_iff)
qed

theorem dims_last_writer_wins_witness:
  "reports [Some [(1::nat, 2)], None, Some [(1, 5), (3, 1)]] = [(1, 2)] @ (1, 5) # [(3, 1)]
   \<and> (1::nat) \<notin> fst ` set [(3::nat, 1::nat)]
   \<and> map_of (scan_graph [Some [(1::nat, 2)], None, Some [(1, 5), (3, 1)]] []) 1 = Some 5
   \<and> scan_graph [Some [(1::nat, 2)], None, Some [(1, 5), (3, 1)]] [] = [(1, 5), (3, 1)]"
proof -
  have h: "reports [Some [(1::nat, 2)], None, Some [(1, 5), (3, 1)]] = [(1, 2)] @ (1, 5) # [(3, 1)]
      \<and> (1::nat) \<notin> fst ` set [(3::nat, 1::nat)]"
    by (simp add: reports_def)
  from dims_last_writer_wins [of "[Some [(1::nat, 2)], None, Some [(1, 5), (3, 1)]]" 1] h
  have "map_of (scan_graph [Some [(1::nat, 2)], None, Some [(1, 5), (3, 1)]] []) 1 = Some 5"
    by blast
  with h show ?thesis by simp
qed

section \<open>The column offset map\<close>

lemma sum_list_take_mono:
  "i \<le> j \<Longrightarrow> sum_list (map f (take i xs)) \<le> (sum_list (map f (take j xs)) :: nat)"
proof -
  assume "i \<le> j"
  then have "take j xs = take i xs @ take (j - i) (drop i xs)"
    by (metis le_add_diff_inverse take_add)
  then show ?thesis by simp
qed

text \<open>
  Claim C6. For an ordering of distinct variables whose dimensions add up to a value of
  \<^verbatim>\<open>size_t\<close>, the offset recorded for each variable is the sum of the dimensions of the
  variables before it in the ordering. So the first variable has offset 0, each later
  offset is the previous offset plus the previous dimension, offsets never decrease along
  the ordering, the last block ends at the total number of columns, and exactly the
  variables of the ordering have an offset.
\<close>

theorem column_offsets_are_prefix_sums:
  assumes "distinct order" and "sum_list (map (map_read dims) order) < 2 ^ 64"
  shows "(\<forall>i<length order.
            map_of (columnIndices_of order dims) (order ! i) =
              Some (sum_list (map (map_read dims) (take i order))))
    \<and> (order \<noteq> [] \<longrightarrow> map_read (columnIndices_of order dims) (hd order) = 0)
    \<and> (\<forall>i. Suc i < length order \<longrightarrow>
          map_read (columnIndices_of order dims) (order ! Suc i) =
            map_read (columnIndices_of order dims) (order ! i) + map_read dims (order ! i))
    \<and> (\<forall>i j. i \<le> j \<and> j < length order \<longrightarrow>
          map_read (columnIndices_of order dims) (order ! i)
            \<le> map_read (columnIndices_of order dims) (order ! j))
    \<and> (order \<noteq> [] \<longrightarrow>
          map_read (columnIndices_of order dims) (last order) + map_read dims (last order) =
            sum_list (map (map_read dims) order))
    \<and> fst ` set (columnIndices_of order dims) = set order"
proof -
  let ?ci = "columnIndices_of order dims"
  let ?d = "map_read dims"
  have pre: "map_of ?ci (order ! i) = Some (sum_list (map ?d (take i order)))"
    if "i < length order" for i
    using columnIndices_prefix_sum [of order 0 dims i "[]"] assms that
    by (simp add: columnIndices_of_def)
  have rd: "map_read ?ci (order ! i) = sum_list (map ?d (take i order))"
    if "i < length order" for i
    using pre [OF that] by (simp add: map_read_eq)
  have first: "map_read ?ci (hd order) = 0" if "order \<noteq> []"
    using rd [of 0] that by (simp add: hd_conv_nth)
  have step: "map_read ?ci (order ! Suc i) = map_read ?ci (order ! i) + ?d (order ! i)"
    if "Suc i < length order" for i
    using rd [of "Suc i"] rd [of i] that by (simp add: take_Suc_conv_app_nth)
  have mono: "map_read ?ci (order ! i) \<le> map_read ?ci (order ! j)"
    if "i \<le> j \<and> j < length order" for i j
    using rd [of i] rd [of j] that sum_list_take_mono [of i j ?d order] by simp
  have total: "map_read ?ci (last order) + ?d (last order) = sum_list (map ?d order)"
    if "order \<noteq> []"
  proof -
    have "order = butlast order @ [last order]"
      using that by simp
    then have "sum_list (map ?d order) = sum_list (map ?d (butlast order)) + ?d (last order)"
      by (metis (no_types) map_append sum_list_append list.simps(8,9) sum_list.Cons sum_list.Nil add.right_neutral)
    moreover have "map_read ?ci (last order) = sum_list (map ?d (butlast order))"
      using rd [of "length order - 1"] that by (simp add: last_conv_nth butlast_conv_take)
    ultimately show ?thesis by simp
  qed
  have keys: "fst ` set ?ci = set order"
    by (simp add: columnIndices_of_def keys_columnIndices)
  from pre first step mono total keys show ?thesis by blast
qed

theorem column_offsets_are_prefix_sums_witness:
  "distinct [10::nat, 20, 30]
   \<and> sum_list (map (map_read [(10, 2::nat), (30, 3)]) [10::nat, 20, 30]) < 2 ^ 64
   \<and> map_of (columnIndices_of [10::nat, 20, 30] [(10, 2::nat), (30, 3)]) 30 = Some 2
   \<and> columnIndices_of [10::nat, 20, 30] [(10, 2::nat), (30, 3)] = [(10, 0), (20, 2), (30, 2)]"
proof -
  have h1: "distinct [10::nat, 20, 30]" by simp
  have h2: "sum_list (map (map_read [(10, 2::nat), (30, 3)]) [10::nat, 20, 30]) < 2 ^ 64"
    by (simp add: map_read_eq)
  have "map_of (columnIndices_of [10::nat, 20, 30] [(10, 2::nat), (30, 3)]) ([10::nat, 20, 30] ! 2) =
          Some (sum_list (map (map_read [(10::nat, 2::nat), (30, 3)]) (take 2 [10::nat, 20, 30])))"
    using column_offsets_are_prefix_sums [OF h1 h2, THEN conjunct1, rule_format, of 2]
    by simp
  then have "map_of (columnIndices_of [10::nat, 20, 30] [(10, 2::nat), (30, 3)]) 30 = Some 2"
    by (simp add: map_read_eq)
  moreover have "columnIndices_of [10::nat, 20, 30] [(10, 2::nat), (30, 3)] = [(10, 0), (20, 2), (30, 2)]"
    by (simp add: columnIndices_of_def map_index_def size_t_add_def)
  ultimately show ?thesis using h1 h2 by blast
qed

section \<open>Mode rejection\<close>

text \<open>
  Claim C4. With the solver type QR, \<^verbatim>\<open>solve\<close> throws
  \<^verbatim>\<open>std::invalid_argument\<close> at once, for every graph (the empty one included), every
  assembler and every device: the result does not depend on them, and the machine state
  it leaves is the one it started from, so nothing was allocated. The solver object is
  an argument the function only reads.
\<close>

theorem solve_rejects_QR:
  "solverType this = QR \<Longrightarrow>
   solve LOCATION sparseJacobianEigen dev this gfg s =
     (Inl (invalid_argument ''This solver does not support QR.''), s)"
  by (simp add: solve_def throw_def)

theorem solve_rejects_QR_witness:
  "solverType (new_CuSparseSolver QR ([]::nat list)) = QR
   \<and> solve here sample_assembler quiet_device (new_CuSparseSolver QR []) [] idle_machine =
       (Inl (invalid_argument ''This solver does not support QR.''), idle_machine)"
proof -
  have h: "solverType (new_CuSparseSolver QR ([]::nat list)) = QR"
    by (simp add: new_CuSparseSolver_def)
  from solve_rejects_QR [OF h] h show ?thesis by simp
qed

section \<open>The normal-equations reduction\<close>

text \<open>
  Claim C5. For an augmented system \<open>Ab\<close> with \<open>r\<close> rows and \<open>c + 1\<close> columns, the
  reduction yields \<open>A\<close>, the first \<open>c\<close> columns of \<open>Ab\<close>; the reduced right-hand side, the
  product of the transpose of \<open>A\<close> with the last column of \<open>Ab\<close>; and \<open>AtA\<close>, a \<open>c\<close> by \<open>c\<close>
  matrix that agrees with the product of the transpose of \<open>A\<close> and \<open>A\<close> on and above the
  diagonal and is zero below it. \<open>AtA\<close> is obtained by the rank update of an empty
  matrix with the transpose, as \<open>normal_equations\<close> shows; scalars are exact.
\<close>

theorem normal_equations_reduction:
  assumes "cols Ab = Suc c" and "rows Ab = r"
  shows "\<exists>A b AtA. normal_equations Ab = Inr (A, b, AtA)
     \<and> rows A = r \<and> cols A = c
     \<and> (\<forall>i<r. \<forall>j<c. coeff A i j = coeff Ab i j)
     \<and> b = product (transpose_matrix A) (column Ab c)
     \<and> (\<forall>i<r. coeff (column Ab c) i 0 = coeff Ab i c)
     \<and> rows b = c \<and> cols b = 1
     \<and> (\<forall>j<c. coeff b j 0 = sum_list (map (\<lambda>k. coeff Ab k j * coeff Ab k c) [0..<r]))
     \<and> rows AtA = c \<and> cols AtA = c
     \<and> (\<forall>i<c. \<forall>j<c. coeff AtA i j =
           (if i \<le> j then coeff (product (transpose_matrix A) A) i j else 0))"
  using assms
  by (simp add: normal_equations_def Let_def block_def column_def transpose_matrix_def
      product_def empty_sparse_def rankUpdate_upper_def)

theorem normal_equations_reduction_witness:
  "cols sample_system = Suc 3 \<and> rows sample_system = 2
   \<and> (\<exists>A b AtA. normal_equations sample_system = Inr (A, b, AtA)
        \<and> rows A = 2 \<and> cols A = 3 \<and> cols AtA = 3
        \<and> coeff b 1 0 = 33 \<and> coeff AtA 0 1 = 3 \<and> coeff AtA 1 0 = 0 \<and> coeff AtA 2 2 = 41)"
proof -
  have h1: "cols sample_system = Suc 3" and h2: "rows sample_system = 2"
    by (simp_all add: sample_system_def)
  from normal_equations_reduction [OF h1 h2]
  obtain A b AtA where ne: "normal_equations sample_system = Inr (A, b, AtA)"
    and dims: "rows A = 2" "cols A = 3" "cols AtA = 3"
    and b: "\<forall>j<3. coeff b j 0 = sum_list (map (\<lambda>k. coeff sample_system k j * coeff sample_system k 3) [0..<2])"
    and AtA: "\<forall>i<3. \<forall>j<3. coeff AtA i j =
           (if i \<le> j then coeff (product (transpose_matrix A) A) i j else 0)"
    and A: "\<forall>i<2. \<forall>j<3. coeff A i j = coeff sample_system i j"
    by blast
  have up: "[0..<2] = [0, 1]"
    by (simp add: upt_conv_Cons)
  have "coeff b 1 0 = 33"
    using b by (simp add: up sample_system_def)
  moreover have "coeff AtA 0 1 = 3" "coeff AtA 1 0 = 0" "coeff AtA 2 2 = 41"
    using AtA A dims by (simp_all add: product_def transpose_matrix_def up sample_system_def)
  ultimately show ?thesis
    using h1 h2 ne dims by blast
qed

section \<open>Facts about the result loop\<close>

lemma fill_values_appends:
  "sorted_wrt (<) (map fst kds) \<Longrightarrow>
   (\<forall>j\<in>fst ` set vv. \<forall>k\<in>fst ` set kds. j < k) \<Longrightarrow>
   (\<forall>(k, d)\<in>set kds. map_read ci k + d \<le> length x) \<Longrightarrow>
   fill_values kds ci x vv =
     Inr (vv @ map (\<lambda>(k, d). (k, take d (drop (map_read ci k) x))) kds)"
proof (induction kds arbitrary: ci vv)
  case Nil
  then show ?case by simp
next
  case (Cons kd kds)
  obtain k d where kd: "kd = (k, d)" by (cases kd)
  let ?seg = "take d (drop (map_read ci k) x)"
  let ?ci' = "snd (map_index k ci)"
  have seg: "segment x (map_read ci k) d = Inr ?seg"
    using Cons.prems(3) by (simp add: kd segment_def)
  have below: "\<forall>j\<in>fst ` set vv. j < k"
    using Cons.prems(2) by (simp add: kd)
  then have "k \<notin> fst ` set vv"
    by auto
  then have absent: "map_of vv k = None"
    by (simp add: map_of_eq_None_iff)
  have "map_assign k ?seg vv = vv @ [(k, ?seg)]"
    using below by (rule map_assign_append)
  with absent have ins: "vv_insert k ?seg vv = Inr (vv @ [(k, ?seg)])"
    by (simp add: vv_insert_def)
  have "fill_values kds ?ci' x (vv @ [(k, ?seg)]) =
          Inr ((vv @ [(k, ?seg)]) @ map (\<lambda>(k, d). (k, take d (drop (map_read ?ci' k) x))) kds)"
  proof (rule Cons.IH)
    show "sorted_wrt (<) (map fst kds)"
      using Cons.prems(1) by simp
    show "\<forall>j\<in>fst ` set (vv @ [(k, ?seg)]). \<forall>k\<in>fst ` set kds. j < k"
      using Cons.prems(1,2) by (auto simp: kd)
    show "\<forall>(k, d)\<in>set kds. map_read ?ci' k + d \<le> length x"
      using Cons.prems(3) by (simp add: map_read_after_index)
  qed
  then show ?case
    using seg ins by (simp add: kd split_beta map_read_def [symmetric] map_read_after_index)
qed

lemma sorted_keys_entry:
  "sorted_wrt (<) (map fst m) \<Longrightarrow> (k, d) \<in> set m \<Longrightarrow> map_read m k = d"
proof -
  assume s: "sorted_wrt (<) (map fst m)" and e: "(k, d) \<in> set m"
  from s have "distinct (map fst m)"
    by (simp add: strict_sorted_iff)
  with e have "map_of m k = Some d" by simp
  then show ?thesis by (simp add: map_read_eq)
qed

lemma remap_value:
  assumes "\<forall>(k, d)\<in>set (fst (column_loop order 0 (scan_graph gfg []) [])).
             map_read (columnIndices_of order (scan_graph gfg [])) k + d \<le> length x"
  shows "remap order gfg x =
     Inr (map (\<lambda>(k, d). (k, take d (drop (map_read (columnIndices_of order (scan_graph gfg [])) k) x)))
            (fst (column_loop order 0 (scan_graph gfg []) [])))"
proof -
  let ?dims = "scan_graph gfg []"
  let ?loop = "column_loop order 0 ?dims []"
  have "sorted_wrt (<) (map fst (fst ?loop))"
    by (rule sorted_dims_after) (rule sorted_scan_graph, simp)
  then have "fill_values (fst ?loop) (snd ?loop) x [] =
      Inr ([] @ map (\<lambda>(k, d). (k, take d (drop (map_read (snd ?loop) k) x))) (fst ?loop))"
    using assms by (intro fill_values_appends) (simp_all add: columnIndices_of_def)
  then show ?thesis
    by (simp add: remap_def columnIndices_of_def Let_def split_beta)
qed

lemma offset_plus_dim_le_total:
  assumes "distinct order" and "sum_list (map (map_read dims) order) < 2 ^ 64"
    and "k \<in> set order"
  shows "map_read (columnIndices_of order dims) k + map_read dims k
           \<le> sum_list (map (map_read dims) order)"
proof -
  from assms(3) obtain i where i: "i < length order" "order ! i = k"
    by (auto simp: in_set_conv_nth)
  have "map_of (columnIndices_of order dims) (order ! i) =
          Some (sum_list (map (map_read dims) (take i order)))"
    using columnIndices_prefix_sum [of order 0 dims i "[]"] assms(1,2) i(1)
    by (simp add: columnIndices_of_def)
  then have "map_read (columnIndices_of order dims) k = sum_list (map (map_read dims) (take i order))"
    by (simp add: map_read_eq i(2))
  moreover have "sum_list (map (map_read dims) (take (Suc i) order)) \<le> sum_list (map (map_read dims) order)"
    using sum_list_take_mono [of "Suc i" "length order" "map_read dims" order] i(1) by simp
  ultimately show ?thesis
    using i by (simp add: take_Suc_conv_app_nth)
qed

lemma remap_succeeds:
  assumes "distinct order" and "fst ` set (reports gfg) \<subseteq> set order"
    and "sum_list (map (map_read (scan_graph gfg [])) order) \<le> length x"
    and "sum_list (map (map_read (scan_graph gfg [])) order) < 2 ^ 64"
  shows "remap order gfg x =
     Inr (map (\<lambda>(k, d). (k, take d (drop (map_read (columnIndices_of order (scan_graph gfg [])) k) x)))
            (fst (column_loop order 0 (scan_graph gfg []) [])))"
proof (rule remap_value, clarify)
  fix k d
  let ?dims = "scan_graph gfg []"
  let ?dims' = "fst (column_loop order 0 ?dims [])"
  assume e: "(k, d) \<in> set ?dims'"
  have "sorted_wrt (<) (map fst ?dims')"
    by (rule sorted_dims_after) (rule sorted_scan_graph, simp)
  with e have "map_read ?dims' k = d"
    by (rule sorted_keys_entry [rotated])
  then have d: "d = map_read ?dims k"
    by (simp add: map_read_dims_after)
  have "k \<in> fst ` set ?dims'"
    using e by force
  then have "k \<in> set order"
    using assms(2) by (auto simp: keys_dims_after keys_scan_graph)
  from offset_plus_dim_le_total [OF assms(1,4) this] assms(3)
  show "map_read (columnIndices_of order ?dims) k + d \<le> length x"
    by (simp add: d)
qed

lemma keys_of_result:
  assumes "fst ` set (reports gfg) \<subseteq> set order"
  shows "map fst (fst (column_loop order 0 (scan_graph gfg []) [])) = sorted_list_of_set (set order)"
proof (rule strict_sorted_equal)
  show "sorted_wrt (<) (sorted_list_of_set (set order))"
    by simp
  show "sorted_wrt (<) (map fst (fst (column_loop order 0 (scan_graph gfg []) [])))"
    by (rule sorted_dims_after) (rule sorted_scan_graph, simp)
  show "set (map fst (fst (column_loop order 0 (scan_graph gfg []) []))) =
        set (sorted_list_of_set (set order))"
    using assms by (auto simp: keys_dims_after keys_scan_graph)
qed

lemma concat_slices:
  assumes "distinct order" and "sum_list (map (map_read dims) order) < 2 ^ 64"
    and "order = before @ rest"
  shows "concat (map (\<lambda>k. take (map_read dims k)
                          (drop (map_read (columnIndices_of order dims) k) x)) rest) =
         take (sum_list (map (map_read dims) rest))
           (drop (sum_list (map (map_read dims) before)) x)"
  using assms(3)
proof (induction rest arbitrary: before)
  case Nil
  then show ?case by simp
next
  case (Cons k rest)
  have i: "length before < length order" "order ! length before = k"
    using Cons.prems by simp_all
  have "map_of (columnIndices_of order dims) (order ! length before) =
          Some (sum_list (map (map_read dims) (take (length before) order)))"
    using columnIndices_prefix_sum [of order 0 dims "length before" "[]"] assms(1,2) i(1)
    by (simp add: columnIndices_of_def)
  then have off: "map_read (columnIndices_of order dims) k = sum_list (map (map_read dims) before)"
    using Cons.prems by (simp add: map_read_eq i(2))
  have "concat (map (\<lambda>k. take (map_read dims k)
                          (drop (map_read (columnIndices_of order dims) k) x)) rest) =
         take (sum_list (map (map_read dims) rest))
           (drop (sum_list (map (map_read dims) (before @ [k]))) x)"
    using Cons.prems by (intro Cons.IH) simp
  then show ?case
    by (simp add: off take_add add.commute)
qed

section \<open>Facts about the device calls\<close>

lemmas comp_defs = andThen_def call_def ret_def throw_def
lemmas check_defs = checkCUDAError_def checkCuSolverError_def checkCuSparseError_def
lemmas cuda_defs = cudaMalloc_def cudaFree_def init_ptr_def fresh_addr_def

lemma upload_succeeds:
  "cudaMalloc_row_status dev = cudaSuccess \<Longrightarrow> cudaMalloc_col_status dev = cudaSuccess \<Longrightarrow>
   cudaMalloc_val_status dev = cudaSuccess \<Longrightarrow> cudaMemcpy_val_status dev = cudaSuccess \<Longrightarrow>
   cudaMemcpy_row_status dev = cudaSuccess \<Longrightarrow> cudaMemcpy_col_status dev = cudaSuccess \<Longrightarrow>
   row \<noteq> col \<Longrightarrow> row \<noteq> val \<Longrightarrow> col \<noteq> val \<Longrightarrow>
   EigenSparseToCuSparseTranspose LOCATION dev row col val s =
     (Inr (),
      s\<lparr>heap := Suc (Suc (Suc (foldr max (heap s) 0))) # Suc (Suc (foldr max (heap s) 0))
                 # Suc (foldr max (heap s) 0) # heap s,
        vars := (vars s)(row := DevAddr (Suc (foldr max (heap s) 0)),
                         col := DevAddr (Suc (Suc (foldr max (heap s) 0))),
                         val := DevAddr (Suc (Suc (Suc (foldr max (heap s) 0)))))\<rparr>)"
  by (simp add: EigenSparseToCuSparseTranspose_def comp_defs check_defs cuda_defs Let_def)

lemma upload_col_failure:
  "cudaMalloc_row_status dev = cudaSuccess \<Longrightarrow> cudaMalloc_col_status dev \<noteq> cudaSuccess \<Longrightarrow>
   EigenSparseToCuSparseTranspose LOCATION dev row col val s =
     (Inl (runtime_error ''cudaMalloc error: out of memory?''),
      s\<lparr>heap := Suc (foldr max (heap s) 0) # heap s,
        vars := (vars s)(row := DevAddr (Suc (foldr max (heap s) 0))),
        refused_frees := refused_frees s @ [HostAddr row]\<rparr>)"
  by (simp add: EigenSparseToCuSparseTranspose_def comp_defs check_defs cuda_defs Let_def)

lemma upload_val_failure:
  "cudaMalloc_row_status dev = cudaSuccess \<Longrightarrow> cudaMalloc_col_status dev = cudaSuccess \<Longrightarrow>
   cudaMalloc_val_status dev \<noteq> cudaSuccess \<Longrightarrow>
   EigenSparseToCuSparseTranspose LOCATION dev row col val s =
     (Inl (runtime_error ''cudaMalloc error: out of memory?''),
      s\<lparr>heap := Suc (Suc (foldr max (heap s) 0)) # Suc (foldr max (heap s) 0) # heap s,
        vars := (vars s)(row := DevAddr (Suc (foldr max (heap s) 0)),
                         col := DevAddr (Suc (Suc (foldr max (heap s) 0)))),
        refused_frees := refused_frees s @ [HostAddr row, HostAddr col]\<rparr>)"
  by (simp add: EigenSparseToCuSparseTranspose_def comp_defs check_defs cuda_defs Let_def)

lemma upload_row_failure:
  "cudaMalloc_row_status dev \<noteq> cudaSuccess \<Longrightarrow>
   EigenSparseToCuSparseTranspose LOCATION dev row col val s =
     (Inl (runtime_error (''cudaMalloc error: out of memory? trying to allocate ''
             @ to_string (cudaMalloc_row_status dev))), s)"
  by (simp add: EigenSparseToCuSparseTranspose_def comp_defs check_defs cuda_defs Let_def)

lemma solve_all_calls_succeed:
  assumes "solverType this = CHOLESKY" and "every_call_succeeds dev"
    and "cols (sparseJacobianEigen gfg (solverOrdering this)) \<noteq> 0"
  shows "fst (solve LOCATION sparseJacobianEigen dev this gfg s) =
      (if csrlsvchol_singularity dev \<noteq> - 1
       then Inl (runtime_error (''ILS in CUDA Solver, singularity: ''
                  @ to_string (csrlsvchol_singularity dev)))
       else remap (solverOrdering this) gfg
              (map (csrlsvchol_x dev)
                 [0..<cols (sparseJacobianEigen gfg (solverOrdering this)) - 1]))"
    and "heap (snd (solve LOCATION sparseJacobianEigen dev this gfg s)) = heap s"
    and "refused_frees (snd (solve LOCATION sparseJacobianEigen dev this gfg s)) = refused_frees s"
  using assms
  by (simp_all add: solve_def every_call_succeeds_def buffers_acquired_def upload_succeeds
      normal_equations_def block_def Let_def comp_defs check_defs cuda_defs split: sum.splits)

lemma solve_device_error:
  assumes "solverType this = CHOLESKY" and "buffers_acquired dev"
    and "cols (sparseJacobianEigen gfg (solverOrdering this)) \<noteq> 0"
  shows "cudaMemcpy_b_status dev \<noteq> cudaSuccess \<Longrightarrow>
      fst (solve LOCATION sparseJacobianEigen dev this gfg s) =
        Inl (runtime_error (''cudaMalloc error '' @ to_string (cudaMemcpy_b_status dev)
               @ '' at '' @ LOCATION Line147))"
    and "cudaMemcpy_b_status dev = cudaSuccess \<Longrightarrow>
      csrlsvchol_status dev \<noteq> CUSOLVER_STATUS_SUCCESS \<Longrightarrow>
      fst (solve LOCATION sparseJacobianEigen dev this gfg s) =
        Inl (runtime_error (''cuSolver error '' @ to_string (csrlsvchol_status dev)
               @ '' at '' @ LOCATION Line158))"
    and "cudaMemcpy_b_status dev = cudaSuccess \<Longrightarrow>
      csrlsvchol_status dev = CUSOLVER_STATUS_SUCCESS \<Longrightarrow>
      cudaMemcpy_x_status dev \<noteq> cudaSuccess \<Longrightarrow>
      fst (solve LOCATION sparseJacobianEigen dev this gfg s) =
        Inl (runtime_error (''cudaMalloc error '' @ to_string (cudaMemcpy_x_status dev)
               @ '' at '' @ LOCATION Line164))"
    and "\<not> every_call_succeeds dev \<Longrightarrow>
      heap (snd (solve LOCATION sparseJacobianEigen dev this gfg s)) =
        Suc (Suc (Suc (Suc (Suc (foldr max (heap s) 0)))))
        # Suc (Suc (Suc (Suc (foldr max (heap s) 0))))
        # Suc (Suc (Suc (foldr max (heap s) 0)))
        # Suc (Suc (foldr max (heap s) 0))
        # Suc (foldr max (heap s) 0) # heap s"
  using assms
  by (simp_all add: solve_def every_call_succeeds_def buffers_acquired_def upload_succeeds
      normal_equations_def block_def Let_def comp_defs check_defs cuda_defs split: sum.splits)

lemma andThen_InrE:
  assumes "andThen m f s = (Inr v, s')"
  obtains r s1 where "m s = (Inr r, s1)" and "f r s1 = (Inr v, s')"
  using assms by (auto simp: andThen_def split: prod.splits sum.splits)

lemma throw_not_Inr: "throw e s \<noteq> (Inr v, s')"
  by (simp add: throw_def)

lemma checkCUDAError_Inr: "checkCUDAError code l s = (Inr r, s') \<Longrightarrow> code = cudaSuccess"
  by (simp add: checkCUDAError_def throw_def split: if_splits)

lemma checkCuSolverError_Inr:
  "checkCuSolverError code l s = (Inr r, s') \<Longrightarrow> code = CUSOLVER_STATUS_SUCCESS"
  by (simp add: checkCuSolverError_def throw_def split: if_splits)

lemma checkCuSparseError_Inr:
  "checkCuSparseError code l s = (Inr r, s') \<Longrightarrow> code = CUSPARSE_STATUS_SUCCESS"
  by (simp add: checkCuSparseError_def throw_def split: if_splits)

lemma cudaMalloc_code: "call (cudaMalloc status v) s = (Inr code, s') \<Longrightarrow> code = status"
  by (auto simp: call_def cudaMalloc_def Let_def split: if_splits)

lemma upload_Inr:
  assumes "EigenSparseToCuSparseTranspose LOCATION dev row col val s = (Inr r, s')"
  shows "cudaMalloc_row_status dev = cudaSuccess \<and> cudaMalloc_col_status dev = cudaSuccess
     \<and> cudaMalloc_val_status dev = cudaSuccess \<and> cudaMemcpy_val_status dev = cudaSuccess
     \<and> cudaMemcpy_row_status dev = cudaSuccess \<and> cudaMemcpy_col_status dev = cudaSuccess"
proof -
  from assms obtain e1 s1 where
      m1: "call (cudaMalloc (cudaMalloc_row_status dev) row) s = (Inr e1, s1)"
      and k1: "(if e1 \<noteq> cudaSuccess
          then throw (runtime_error
                 (''cudaMalloc error: out of memory? trying to allocate '' @ to_string e1))
          else
          andThen (call (cudaMalloc (cudaMalloc_col_status dev) col)) (\<lambda>err_col.
          if err_col \<noteq> cudaSuccess
          then andThen (call (cudaFree (HostAddr row))) (\<lambda>_.
               throw (runtime_error ''cudaMalloc error: out of memory?''))
          else
          andThen (call (cudaMalloc (cudaMalloc_val_status dev) val)) (\<lambda>err_val.
          if err_val \<noteq> cudaSuccess
          then andThen (call (cudaFree (HostAddr row))) (\<lambda>_.
               andThen (call (cudaFree (HostAddr col))) (\<lambda>_.
               throw (runtime_error ''cudaMalloc error: out of memory?'')))
          else
          andThen (checkCUDAError (cudaMemcpy_val_status dev) (LOCATION Line98)) (\<lambda>_.
          andThen (checkCUDAError (cudaMemcpy_row_status dev) (LOCATION Line102)) (\<lambda>_.
          checkCUDAError (cudaMemcpy_col_status dev) (LOCATION Line105)))))) s1 = (Inr r, s')"
    unfolding EigenSparseToCuSparseTranspose_def by (elim andThen_InrE)
  have e1: "e1 = cudaMalloc_row_status dev"
    using m1 by (rule cudaMalloc_code)
  have r1: "e1 = cudaSuccess"
    using k1 by (cases "e1 = cudaSuccess") (simp_all add: throw_not_Inr)
  from k1 r1 obtain e2 s2 where
      m2: "call (cudaMalloc (cudaMalloc_col_status dev) col) s1 = (Inr e2, s2)"
      and k2: "(if e2 \<noteq> cudaSuccess
          then andThen (call (cudaFree (HostAddr row))) (\<lambda>_.
               throw (runtime_error ''cudaMalloc error: out of memory?''))
          else
          andThen (call (cudaMalloc (cudaMalloc_val_status dev) val)) (\<lambda>err_val.
          if err_val \<noteq> cudaSuccess
          then andThen (call (cudaFree (HostAddr row))) (\<lambda>_.
               andThen (call (cudaFree (HostAddr col))) (\<lambda>_.
               throw (runtime_error ''cudaMalloc error: out of memory?'')))
          else
          andThen (checkCUDAError (cudaMemcpy_val_status dev) (LOCATION Line98)) (\<lambda>_.
          andThen (checkCUDAError (cudaMemcpy_row_status dev) (LOCATION Line102)) (\<lambda>_.
          checkCUDAError (cudaMemcpy_col_status dev) (LOCATION Line105))))) s2 = (Inr r, s')"
    by (simp, elim andThen_InrE)
  have e2: "e2 = cudaMalloc_col_status dev"
    using m2 by (rule cudaMalloc_code)
  have r2: "e2 = cudaSuccess"
    using k2 by (cases "e2 = cudaSuccess") (auto elim!: andThen_InrE simp: throw_not_Inr)
  from k2 r2 obtain e3 s3 where
      m3: "call (cudaMalloc (cudaMalloc_val_status dev) val) s2 = (Inr e3, s3)"
      and k3: "(if e3 \<noteq> cudaSuccess
          then andThen (call (cudaFree (HostAddr row))) (\<lambda>_.
               andThen (call (cudaFree (HostAddr col))) (\<lambda>_.
               throw (runtime_error ''cudaMalloc error: out of memory?'')))
          else
          andThen (checkCUDAError (cudaMemcpy_val_status dev) (LOCATION Line98)) (\<lambda>_.
          andThen (checkCUDAError (cudaMemcpy_row_status dev) (LOCATION Line102)) (\<lambda>_.
          checkCUDAError (cudaMemcpy_col_status dev) (LOCATION Line105)))) s3 = (Inr r, s')"
    by (simp, elim andThen_InrE)
  have e3: "e3 = cudaMalloc_val_status dev"
    using m3 by (rule cudaMalloc_code)
  have r3: "e3 = cudaSuccess"
    using k3 by (cases "e3 = cudaSuccess") (auto elim!: andThen_InrE simp: throw_not_Inr)
  from k3 r3 have "cudaMemcpy_val_status dev = cudaSuccess \<and> cudaMemcpy_row_status dev = cudaSuccess
      \<and> cudaMemcpy_col_status dev = cudaSuccess"
    by (auto elim!: andThen_InrE dest: checkCUDAError_Inr)
  with e1 r1 e2 r2 e3 r3 show ?thesis by simp
qed

lemma solve_returns_calls:
  assumes "solve LOCATION sparseJacobianEigen dev this gfg s = (Inr vv, s')"
  shows "solverType this = CHOLESKY"
    and "cols (sparseJacobianEigen gfg (solverOrdering this)) \<noteq> 0"
    and "every_call_succeeds dev"
proof -
  show ty: "solverType this = CHOLESKY"
    using assms by (cases "solverType this") (simp_all add: solve_def throw_not_Inr)
  show c: "cols (sparseJacobianEigen gfg (solverOrdering this)) \<noteq> 0"
    using assms ty
    by (cases "cols (sparseJacobianEigen gfg (solverOrdering this)) = 0")
       (simp_all add: solve_def normal_equations_def throw_not_Inr)
  then obtain A b AtA where
    ne: "normal_equations (sparseJacobianEigen gfg (solverOrdering this)) = Inr (A, b, AtA)"
    by (simp add: normal_equations_def Let_def)
  from assms ty ne show "every_call_succeeds dev"
    unfolding solve_def
    apply (simp add: Let_def)
    apply (elim andThen_InrE)
    apply (simp add: every_call_succeeds_def buffers_acquired_def)
    apply (auto dest!: checkCUDAError_Inr checkCuSolverError_Inr checkCuSparseError_Inr
        cudaMalloc_code upload_Inr)
    done
qed

lemma solve_returns:
  assumes "solve LOCATION sparseJacobianEigen dev this gfg s = (Inr vv, s')"
  shows "csrlsvchol_singularity dev = - 1"
    and "remap (solverOrdering this) gfg
          (map (csrlsvchol_x dev)
             [0..<cols (sparseJacobianEigen gfg (solverOrdering this)) - 1]) = Inr vv"
proof -
  note calls = solve_returns_calls [OF assms]
  have "fst (solve LOCATION sparseJacobianEigen dev this gfg s) = Inr vv"
    by (simp add: assms)
  with solve_all_calls_succeed(1)
         [where this = this and dev = dev and sparseJacobianEigen = sparseJacobianEigen
            and gfg = gfg and LOCATION = LOCATION and s = s, OF calls(1,3,2)]
  have *: "(if csrlsvchol_singularity dev \<noteq> - 1
       then Inl (runtime_error (''ILS in CUDA Solver, singularity: ''
                  @ to_string (csrlsvchol_singularity dev)))
       else remap (solverOrdering this) gfg
              (map (csrlsvchol_x dev)
                 [0..<cols (sparseJacobianEigen gfg (solverOrdering this)) - 1])) = Inr vv"
    by simp
  then show "csrlsvchol_singularity dev = - 1"
    by (cases "csrlsvchol_singularity dev = - 1") simp_all
  with * show "remap (solverOrdering this) gfg
          (map (csrlsvchol_x dev)
             [0..<cols (sparseJacobianEigen gfg (solverOrdering this)) - 1]) = Inr vv"
    by simp
qed

section \<open>Evaluation on the sample inputs\<close>

lemmas sample_defs = quiet_device_def idle_machine_def sample_assembler_def sample_system_def
  sample_graph_def new_CuSparseSolver_def

lemmas eval_defs = solve_def EigenSparseToCuSparseTranspose_def normal_equations_def block_def
  comp_defs check_defs cuda_defs cudaSuccess_def CUSOLVER_STATUS_SUCCESS_def
  CUSPARSE_STATUS_SUCCESS_def cudaErrorInvalidValue_def to_string_def digit_def Let_def

section \<open>Allocation failures during the upload\<close>

text \<open>
  Claim C1 says that when one of the three allocations of the upload fails, the
  allocations made before it in the same call are released before the error propagates,
  none made after it exists, and nothing is freed twice. The code does not release them.
  On a machine with nothing allocated, let the second allocation (the column indices)
  fail: the exception is thrown while the row buffer, device address 1, is still
  allocated, and the one \<^verbatim>\<open>cudaFree\<close> call was refused, since its argument was the address
  of the caller's pointer variable and not the device address stored in it. When the
  third allocation (the values) fails, both earlier buffers stay allocated and both
  \<^verbatim>\<open>cudaFree\<close> calls were refused. The lemmas \<open>upload_col_failure\<close> and
  \<open>upload_val_failure\<close> say the same for every device and every machine state.
\<close>

theorem upload_failure_releases_nothing:
  "fst (EigenSparseToCuSparseTranspose here (quiet_device\<lparr>cudaMalloc_col_status := 2\<rparr>)
          AtA_row AtA_col AtA_val idle_machine) =
     Inl (runtime_error ''cudaMalloc error: out of memory?'')
   \<and> heap (snd (EigenSparseToCuSparseTranspose here (quiet_device\<lparr>cudaMalloc_col_status := 2\<rparr>)
          AtA_row AtA_col AtA_val idle_machine)) = [1]
   \<and> refused_frees (snd (EigenSparseToCuSparseTranspose here
          (quiet_device\<lparr>cudaMalloc_col_status := 2\<rparr>) AtA_row AtA_col AtA_val idle_machine)) =
       [HostAddr AtA_row]
   \<and> fst (EigenSparseToCuSparseTranspose here (quiet_device\<lparr>cudaMalloc_val_status := 2\<rparr>)
          AtA_row AtA_col AtA_val idle_machine) =
     Inl (runtime_error ''cudaMalloc error: out of memory?'')
   \<and> heap (snd (EigenSparseToCuSparseTranspose here (quiet_device\<lparr>cudaMalloc_val_status := 2\<rparr>)
          AtA_row AtA_col AtA_val idle_machine)) = [2, 1]
   \<and> refused_frees (snd (EigenSparseToCuSparseTranspose here
          (quiet_device\<lparr>cudaMalloc_val_status := 2\<rparr>) AtA_row AtA_col AtA_val idle_machine)) =
       [HostAddr AtA_row, HostAddr AtA_col]
   \<and> heap idle_machine = []"
  by (simp add: upload_col_failure upload_val_failure quiet_device_def idle_machine_def
      cudaSuccess_def)

section \<open>Error statuses during \<^verbatim>\<open>solve\<close>\<close>

text \<open>
  Claim C2 says that an error status of a device call during \<^verbatim>\<open>solve\<close> reaches the
  caller as an exception with the status code and the call site, after every device
  buffer acquired earlier in the call has been released. The exception is as claimed; the
  release does not happen. On the sample graph, starting with nothing allocated: when
  the factorisation returns status 6, the exception names status 6 and line 158, and the
  five buffers (device addresses 1 to 5) are still allocated; when the upload of \<open>b\<close>
  returns status 11, the exception names status 11 and line 147, and again the five
  buffers are still allocated. The lemma \<open>solve_device_error\<close> says the same for every
  device, graph and machine state.
\<close>

theorem solve_error_releases_nothing:
  "fst (solve here sample_assembler (quiet_device\<lparr>csrlsvchol_status := 6\<rparr>)
          (new_CuSparseSolver CHOLESKY [1, 2]) sample_graph idle_machine) =
     Inl (runtime_error ''cuSolver error 6 at CuSparseSolver.cpp : 158'')
   \<and> heap (snd (solve here sample_assembler (quiet_device\<lparr>csrlsvchol_status := 6\<rparr>)
          (new_CuSparseSolver CHOLESKY [1, 2]) sample_graph idle_machine)) = [5, 4, 3, 2, 1]
   \<and> fst (solve here sample_assembler (quiet_device\<lparr>cudaMemcpy_b_status := 11\<rparr>)
          (new_CuSparseSolver CHOLESKY [1, 2]) sample_graph idle_machine) =
     Inl (runtime_error ''cudaMalloc error 11 at CuSparseSolver.cpp : 147'')
   \<and> heap (snd (solve here sample_assembler (quiet_device\<lparr>cudaMemcpy_b_status := 11\<rparr>)
          (new_CuSparseSolver CHOLESKY [1, 2]) sample_graph idle_machine)) = [5, 4, 3, 2, 1]
   \<and> heap idle_machine = []"
  by (simp add: eval_defs sample_defs)

section \<open>Singularity\<close>

text \<open>
  Claim C3 as stated fails when the factorisation reports a singular pivot and the
  download of the solution, which the source performs before it frees the buffers and
  before it looks at the singularity index, returns an error status. Here the
  factorisation succeeds and reports pivot 2, the download returns status 4: the
  exception is the one of the download, it does not mention the pivot, and the five
  buffers are still allocated.
\<close>

theorem singular_solve_counterexample:
  "csrlsvchol_status (quiet_device\<lparr>csrlsvchol_singularity := 2, cudaMemcpy_x_status := 4\<rparr>) =
     CUSOLVER_STATUS_SUCCESS
   \<and> csrlsvchol_singularity (quiet_device\<lparr>csrlsvchol_singularity := 2, cudaMemcpy_x_status := 4\<rparr>)
       \<noteq> - 1
   \<and> fst (solve here sample_assembler
          (quiet_device\<lparr>csrlsvchol_singularity := 2, cudaMemcpy_x_status := 4\<rparr>)
          (new_CuSparseSolver CHOLESKY [1, 2]) sample_graph idle_machine) =
     Inl (runtime_error ''cudaMalloc error 4 at CuSparseSolver.cpp : 164'')
   \<and> fst (solve here sample_assembler
          (quiet_device\<lparr>csrlsvchol_singularity := 2, cudaMemcpy_x_status := 4\<rparr>)
          (new_CuSparseSolver CHOLESKY [1, 2]) sample_graph idle_machine) \<noteq>
     Inl (runtime_error (''ILS in CUDA Solver, singularity: '' @ to_string 2))
   \<and> heap (snd (solve here sample_assembler
          (quiet_device\<lparr>csrlsvchol_singularity := 2, cudaMemcpy_x_status := 4\<rparr>)
          (new_CuSparseSolver CHOLESKY [1, 2]) sample_graph idle_machine)) = [5, 4, 3, 2, 1]
   \<and> heap idle_machine = []"
  by (simp add: eval_defs sample_defs)

section \<open>The result mapping\<close>

text \<open>
  Claim C7 as stated fails for a variable that is in the ordering and in no factor:
  variable 5 below. The offset loop reads \<^verbatim>\<open>dims[5]\<close>, which enters 5 into the dimension
  map with dimension 0, and the result loop runs over that map: the result has an entry
  for 5, with an empty segment.
\<close>

theorem solve_result_counterexample:
  "fst (solve here sample_assembler quiet_device (new_CuSparseSolver CHOLESKY [1, 2, 5])
          sample_graph idle_machine) =
     Inr [(1, [0, 10]), (2, [20]), (5, [])]
   \<and> 5 \<in> set [1, 2, 5::nat]
   \<and> 5 \<notin> fst ` set (reports sample_graph)"
  by (simp add: eval_defs sample_defs remap_def map_index_def size_t_add_def segment_def
      vv_insert_def reports_def upt_conv_Cons)

text \<open>
  Claim C3, amended. Take a solve in CHOLESKY mode, on an assembled system with at least
  one column, in which every device call returns its success status, the download of the
  solution included. If the singularity index the factorisation reports is not \<open>-1\<close>,
  \<^verbatim>\<open>solve\<close> throws a runtime error whose message ends with that index, and returns no
  mapping. If it is \<open>-1\<close>, \<^verbatim>\<open>solve\<close> goes on to the remapping of the downloaded solution
  and its outcome is the outcome of that remapping; this is a result mapping when the
  ordering holds distinct variables and every referenced one, and the solution has room
  for their dimensions. In both cases the device allocations after the call are those
  before it (the five buffers have been freed) and no \<^verbatim>\<open>cudaFree\<close> was refused.
\<close>

theorem solve_when_every_call_succeeds:
  assumes "solverType this = CHOLESKY" and "every_call_succeeds dev"
    and "cols (sparseJacobianEigen gfg (solverOrdering this)) \<noteq> 0"
  shows "(csrlsvchol_singularity dev \<noteq> - 1 \<longrightarrow>
            fst (solve LOCATION sparseJacobianEigen dev this gfg s) =
              Inl (runtime_error (''ILS in CUDA Solver, singularity: ''
                     @ to_string (csrlsvchol_singularity dev))))
     \<and> (csrlsvchol_singularity dev = - 1 \<longrightarrow>
            fst (solve LOCATION sparseJacobianEigen dev this gfg s) =
              remap (solverOrdering this) gfg
                (map (csrlsvchol_x dev)
                   [0..<cols (sparseJacobianEigen gfg (solverOrdering this)) - 1]))
     \<and> (csrlsvchol_singularity dev = - 1
          \<and> distinct (solverOrdering this)
          \<and> fst ` set (reports gfg) \<subseteq> set (solverOrdering this)
          \<and> sum_list (map (map_read (scan_graph gfg [])) (solverOrdering this))
               \<le> cols (sparseJacobianEigen gfg (solverOrdering this)) - 1
          \<and> sum_list (map (map_read (scan_graph gfg [])) (solverOrdering this)) < 2 ^ 64
          \<longrightarrow> (\<exists>vv. fst (solve LOCATION sparseJacobianEigen dev this gfg s) = Inr vv))
     \<and> heap (snd (solve LOCATION sparseJacobianEigen dev this gfg s)) = heap s
     \<and> refused_frees (snd (solve LOCATION sparseJacobianEigen dev this gfg s)) = refused_frees s"
proof -
  note run = solve_all_calls_succeed
    [where this = this and dev = dev and sparseJacobianEigen = sparseJacobianEigen
       and gfg = gfg and LOCATION = LOCATION and s = s, OF assms]
  let ?x = "map (csrlsvchol_x dev)
              [0..<cols (sparseJacobianEigen gfg (solverOrdering this)) - 1]"
  have "\<exists>vv. remap (solverOrdering this) gfg ?x = Inr vv"
    if "distinct (solverOrdering this)"
      and "fst ` set (reports gfg) \<subseteq> set (solverOrdering this)"
      and "sum_list (map (map_read (scan_graph gfg [])) (solverOrdering this))
             \<le> cols (sparseJacobianEigen gfg (solverOrdering this)) - 1"
      and "sum_list (map (map_read (scan_graph gfg [])) (solverOrdering this)) < 2 ^ 64"
    using remap_succeeds [of "solverOrdering this" gfg ?x] that by simp
  with run show ?thesis by simp
qed

theorem solve_when_every_call_succeeds_witness:
  "solverType (new_CuSparseSolver CHOLESKY [1, 2::nat]) = CHOLESKY
   \<and> every_call_succeeds (quiet_device\<lparr>csrlsvchol_singularity := 2\<rparr>)
   \<and> every_call_succeeds quiet_device
   \<and> cols (sample_assembler sample_graph (solverOrdering (new_CuSparseSolver CHOLESKY [1, 2]))) \<noteq> 0
   \<and> csrlsvchol_singularity (quiet_device\<lparr>csrlsvchol_singularity := 2\<rparr>) \<noteq> - 1
   \<and> fst (solve here sample_assembler (quiet_device\<lparr>csrlsvchol_singularity := 2\<rparr>)
            (new_CuSparseSolver CHOLESKY [1, 2]) sample_graph idle_machine) =
       Inl (runtime_error ''ILS in CUDA Solver, singularity: 2'')
   \<and> heap (snd (solve here sample_assembler (quiet_device\<lparr>csrlsvchol_singularity := 2\<rparr>)
            (new_CuSparseSolver CHOLESKY [1, 2]) sample_graph idle_machine)) = []
   \<and> csrlsvchol_singularity quiet_device = - 1
   \<and> fst (solve here sample_assembler quiet_device
            (new_CuSparseSolver CHOLESKY [1, 2]) sample_graph idle_machine) =
       Inr [(1, [0, 10]), (2, [20])]
   \<and> heap (snd (solve here sample_assembler quiet_device
            (new_CuSparseSolver CHOLESKY [1, 2]) sample_graph idle_machine)) = []"
proof -
  have ty: "solverType (new_CuSparseSolver CHOLESKY [1, 2::nat]) = CHOLESKY"
    by (simp add: new_CuSparseSolver_def)
  have ok2: "every_call_succeeds (quiet_device\<lparr>csrlsvchol_singularity := 2\<rparr>)"
    and ok: "every_call_succeeds quiet_device"
    by (simp_all add: every_call_succeeds_def buffers_acquired_def quiet_device_def
        cudaSuccess_def CUSOLVER_STATUS_SUCCESS_def CUSPARSE_STATUS_SUCCESS_def)
  have c: "cols (sample_assembler sample_graph
             (solverOrdering (new_CuSparseSolver CHOLESKY [1, 2]))) \<noteq> 0"
    by (simp add: sample_assembler_def sample_system_def)
  have s2: "csrlsvchol_singularity (quiet_device\<lparr>csrlsvchol_singularity := 2\<rparr>) \<noteq> - 1"
    and s1: "csrlsvchol_singularity quiet_device = - 1"
    by (simp_all add: quiet_device_def)
  have x: "remap [1, 2::nat] sample_graph (map (csrlsvchol_x quiet_device) [0..<3]) =
      Inr [(1, [0, 10]), (2, [20])]"
    by (simp add: remap_def map_index_def size_t_add_def segment_def vv_insert_def
        sample_graph_def quiet_device_def upt_conv_Cons)
  from solve_when_every_call_succeeds
         [where this = "new_CuSparseSolver CHOLESKY [1, 2]"
            and dev = "quiet_device\<lparr>csrlsvchol_singularity := 2\<rparr>"
            and sparseJacobianEigen = sample_assembler and gfg = sample_graph
            and LOCATION = here and s = idle_machine, OF ty ok2 c] s2
  have a: "fst (solve here sample_assembler (quiet_device\<lparr>csrlsvchol_singularity := 2\<rparr>)
            (new_CuSparseSolver CHOLESKY [1, 2]) sample_graph idle_machine) =
       Inl (runtime_error ''ILS in CUDA Solver, singularity: 2'')"
    and b: "heap (snd (solve here sample_assembler (quiet_device\<lparr>csrlsvchol_singularity := 2\<rparr>)
            (new_CuSparseSolver CHOLESKY [1, 2]) sample_graph idle_machine)) = []"
    by (simp_all add: quiet_device_def to_string_def digit_def idle_machine_def)
  from solve_when_every_call_succeeds
         [where this = "new_CuSparseSolver CHOLESKY [1, 2]" and dev = quiet_device
            and sparseJacobianEigen = sample_assembler and gfg = sample_graph
            and LOCATION = here and s = idle_machine, OF ty ok c] s1 x
  have d: "fst (solve here sample_assembler quiet_device
            (new_CuSparseSolver CHOLESKY [1, 2]) sample_graph idle_machine) =
       Inr [(1, [0, 10]), (2, [20])]"
    and e: "heap (snd (solve here sample_assembler quiet_device
            (new_CuSparseSolver CHOLESKY [1, 2]) sample_graph idle_machine)) = []"
    by (simp_all add: new_CuSparseSolver_def sample_assembler_def sample_system_def
        idle_machine_def)
  from ty ok2 ok c s2 a b s1 d e show ?thesis by blast
qed

section \<open>The result mapping, amended\<close>

lemma map_of_map_keyed:
  "map_of (map (\<lambda>(k, d). (k, g k d)) m) k = map_option (g k) (map_of m k)"
  by (induction m) auto

text \<open>
  Claim C7, amended. Take a solve that returns a mapping, for an ordering of distinct
  variables that contains every variable some factor references, where the assembled
  system has one column more than the dimensions of the ordering add up to (a value of
  \<^verbatim>\<open>size_t\<close>). Then the mapping has exactly one entry per variable of the ordering, in
  ascending key order, whether a factor references the variable or not. Each entry is the
  slice of the flat solution that starts at the variable's column offset and has the
  variable's recorded dimension as its length; a variable of the ordering that no factor
  references has the empty slice. Concatenating the entries in ordering order gives the
  flat solution.
\<close>

theorem solve_result_mapping:
  assumes "fst (solve LOCATION sparseJacobianEigen dev this gfg s) = Inr vv"
    and "distinct (solverOrdering this)"
    and "fst ` set (reports gfg) \<subseteq> set (solverOrdering this)"
    and "cols (sparseJacobianEigen gfg (solverOrdering this)) =
           Suc (sum_list (map (map_read (scan_graph gfg [])) (solverOrdering this)))"
    and "sum_list (map (map_read (scan_graph gfg [])) (solverOrdering this)) < 2 ^ 64"
  shows "map fst vv = sorted_list_of_set (set (solverOrdering this))
     \<and> (\<forall>k\<in>set (solverOrdering this).
           map_of vv k =
             Some (take (map_read (scan_graph gfg []) k)
                    (drop (map_read (columnIndices_of (solverOrdering this) (scan_graph gfg [])) k)
                       (map (csrlsvchol_x dev)
                          [0..<sum_list (map (map_read (scan_graph gfg []))
                                  (solverOrdering this))]))))
     \<and> (\<forall>k\<in>set (solverOrdering this).
           k \<notin> fst ` set (reports gfg) \<longrightarrow> map_of vv k = Some [])
     \<and> concat (map (\<lambda>k. the (map_of vv k)) (solverOrdering this)) =
         map (csrlsvchol_x dev)
           [0..<sum_list (map (map_read (scan_graph gfg [])) (solverOrdering this))]"
proof -
  let ?order = "solverOrdering this"
  let ?dims = "scan_graph gfg []"
  let ?total = "sum_list (map (map_read ?dims) ?order)"
  let ?x = "map (csrlsvchol_x dev) [0..<?total]"
  let ?dims' = "fst (column_loop ?order 0 ?dims [])"
  let ?off = "map_read (columnIndices_of ?order ?dims)"
  let ?slice = "\<lambda>k d. take d (drop (?off k) ?x)"
  have "solve LOCATION sparseJacobianEigen dev this gfg s =
          (Inr vv, snd (solve LOCATION sparseJacobianEigen dev this gfg s))"
    using assms(1) by (simp add: prod_eq_iff)
  from solve_returns(2) [OF this] have "remap ?order gfg ?x = Inr vv"
    by (simp add: assms(4))
  moreover have "remap ?order gfg ?x = Inr (map (\<lambda>(k, d). (k, ?slice k d)) ?dims')"
    using assms(2,3,5) by (intro remap_succeeds) simp_all
  ultimately have vv: "vv = map (\<lambda>(k, d). (k, ?slice k d)) ?dims'"
    by simp
  have keys: "map fst vv = sorted_list_of_set (set ?order)"
    using keys_of_result [OF assms(3)] by (simp add: vv comp_def split_beta)
  have entry: "map_of vv k = Some (?slice k (map_read ?dims k))" if "k \<in> set ?order" for k
  proof -
    have "k \<in> fst ` set ?dims'"
      using that by (simp add: keys_dims_after)
    then obtain d where d: "map_of ?dims' k = Some d"
      by (auto simp: keys_dom)
    then have "d = map_read ?dims' k"
      by (simp add: map_read_eq)
    then have "d = map_read ?dims k"
      by (simp add: map_read_dims_after)
    with d show ?thesis
      by (simp add: vv map_of_map_keyed)
  qed
  have empty: "map_of vv k = Some []"
    if "k \<in> set ?order" and "k \<notin> fst ` set (reports gfg)" for k
  proof -
    have "k \<notin> fst ` set ?dims"
      using that(2) by (simp add: keys_scan_graph)
    then have "map_of ?dims k = None"
      by (simp add: map_of_eq_None_iff)
    then have "map_read ?dims k = 0"
      by (simp add: map_read_eq)
    with entry [OF that(1)] show ?thesis by simp
  qed
  have "concat (map (\<lambda>k. the (map_of vv k)) ?order) =
        concat (map (\<lambda>k. ?slice k (map_read ?dims k)) ?order)"
    by (rule arg_cong [where f = concat], rule map_cong) (simp_all add: entry)
  also have "\<dots> = take ?total (drop (sum_list (map (map_read ?dims) [])) ?x)"
    using assms(2,5) by (intro concat_slices) simp_all
  also have "\<dots> = ?x"
    by simp
  finally have cat: "concat (map (\<lambda>k. the (map_of vv k)) ?order) = ?x" .
  from keys entry empty cat show ?thesis by blast
qed

theorem solve_result_mapping_witness:
  "fst (solve here sample_assembler quiet_device (new_CuSparseSolver CHOLESKY [1, 2, 5])
          sample_graph idle_machine) = Inr [(1, [0, 10]), (2, [20]), (5, [])]
   \<and> distinct (solverOrdering (new_CuSparseSolver CHOLESKY [1, 2, 5::nat]))
   \<and> fst ` set (reports sample_graph) \<subseteq> set (solverOrdering (new_CuSparseSolver CHOLESKY [1, 2, 5]))
   \<and> cols (sample_assembler sample_graph (solverOrdering (new_CuSparseSolver CHOLESKY [1, 2, 5]))) =
       Suc (sum_list (map (map_read (scan_graph sample_graph []))
              (solverOrdering (new_CuSparseSolver CHOLESKY [1, 2, 5]))))
   \<and> sum_list (map (map_read (scan_graph sample_graph []))
              (solverOrdering (new_CuSparseSolver CHOLESKY [1, 2, 5]))) < 2 ^ 64
   \<and> map fst [(1::nat, [0, 10::int]), (2, [20]), (5, [])] =
       sorted_list_of_set (set (solverOrdering (new_CuSparseSolver CHOLESKY [1, 2, 5])))
   \<and> concat (map (\<lambda>k. the (map_of [(1::nat, [0, 10::int]), (2, [20]), (5, [])] k))
         (solverOrdering (new_CuSparseSolver CHOLESKY [1, 2, 5]))) =
       map (csrlsvchol_x quiet_device)
         [0..<sum_list (map (map_read (scan_graph sample_graph []))
                 (solverOrdering (new_CuSparseSolver CHOLESKY [1, 2, 5])))]"
proof -
  have h1: "fst (solve here sample_assembler quiet_device (new_CuSparseSolver CHOLESKY [1, 2, 5])
          sample_graph idle_machine) = Inr [(1, [0, 10]), (2, [20]), (5, [])]"
    by (simp add: eval_defs sample_defs remap_def map_index_def size_t_add_def segment_def
      vv_insert_def upt_conv_Cons)
  have h2: "distinct (solverOrdering (new_CuSparseSolver CHOLESKY [1, 2, 5::nat]))"
    by (simp add: new_CuSparseSolver_def)
  have h3: "fst ` set (reports sample_graph)
      \<subseteq> set (solverOrdering (new_CuSparseSolver CHOLESKY [1, 2, 5]))"
    by (simp add: new_CuSparseSolver_def reports_def sample_graph_def)
  have h4: "cols (sample_assembler sample_graph
               (solverOrdering (new_CuSparseSolver CHOLESKY [1, 2, 5]))) =
       Suc (sum_list (map (map_read (scan_graph sample_graph []))
              (solverOrdering (new_CuSparseSolver CHOLESKY [1, 2, 5]))))"
    by (simp add: sample_defs map_read_eq)
  have h5: "sum_list (map (map_read (scan_graph sample_graph []))
              (solverOrdering (new_CuSparseSolver CHOLESKY [1, 2, 5]))) < 2 ^ 64"
    by (simp add: sample_defs map_read_eq)
  from solve_result_mapping
         [where this = "new_CuSparseSolver CHOLESKY [1, 2, 5]" and dev = quiet_device
            and sparseJacobianEigen = sample_assembler and gfg = sample_graph
            and LOCATION = here and s = idle_machine, OF h1 h2 h3 h4 h5]
       h1 h2 h3 h4 h5
  show ?thesis by blast
qed

end
